theory Spec2Isabelle
  imports Main
begin

section \<open>JavaScript values\<close>

text \<open>
  The pane is JavaScript: every argument is a dynamically typed value, the guards
  \<^verbatim>\<open>if (low)\<close> test truthiness, and \<^verbatim>\<open>+\<close> on a string converts the other operand
  to a string. A string is the list of its UTF-16 code units, each a natural number, so
  that every character a user can type has its place; \<open>js\<close> turns a literal of ASCII text
  into this form. Among the code units written as numbers are the comma 44, the dot 46,
  the single quote 39, the double quote 34 and the minus sign 45. Numbers are modelled by
  their integer values only (the decimal rendering of an integer is the one JavaScript
  prints); fractions and NaN are not represented.
\<close>

type_synonym jstring = "nat list"

definition js :: "string \<Rightarrow> jstring" where
  "js s = map of_char s"

datatype jsval = JUndefined | JNull | JBool bool | JNum int | JStr jstring

datatype error = TypeError

fun truthy :: "jsval \<Rightarrow> bool" where
  "truthy JUndefined = False"
| "truthy JNull = False"
| "truthy (JBool b) = b"
| "truthy (JNum n) = (n \<noteq> 0)"
| "truthy (JStr s) = (s \<noteq> [])"

fun digits :: "nat \<Rightarrow> jstring" where
  "digits n = (if n < 10 then [48 + n]
               else digits (n div 10) @ [48 + n mod 10])"

declare digits.simps [simp del]

fun to_string :: "jsval \<Rightarrow> jstring" where
  "to_string JUndefined = js ''undefined''"
| "to_string JNull = js ''null''"
| "to_string (JBool b) = (if b then js ''true'' else js ''false'')"
| "to_string (JNum n) = (if n < 0 then 45 # digits (nat (- n)) else digits (nat n))"
| "to_string (JStr s) = s"

section \<open>String operations of the host library\<close>

text \<open>
  \<^verbatim>\<open>s.split(c)\<close> with a one-character separator: the pieces between the separators,
  in order; a string without the separator is the one piece, and the result is never empty.
\<close>

fun split :: "nat \<Rightarrow> jstring \<Rightarrow> jstring list" where
  "split c [] = [[]]"
| "split c (x # xs) =
     (if x = c then [] # split c xs
      else (let ps = split c xs in (x # hd ps) # tl ps))"

text \<open>
  Modelled from the spec: \<^verbatim>\<open>jQuery.trim\<close>, which is jQuery's and not in this file. The
  specification has each piece of a target trimmed: the white space at both ends of the
  string is removed. White space is what \<^verbatim>\<open>String.prototype.trim\<close> and jQuery's own
  pattern (the white-space class with U+FEFF and U+00A0 added) take for it, the
  white-space and line-terminator code units of ECMAScript: tab, line feed, vertical tab, form feed, carriage return (9 to
  13), space (32), no-break space (160, U+00A0), U+1680 (5760), U+2000 to U+200A (8192
  to 8202), U+2028 and U+2029 (8232, 8233), U+202F (8239), U+205F (8287), U+3000 (12288)
  and U+FEFF (65279).
\<close>

definition is_space :: "nat \<Rightarrow> bool" where
  "is_space c =
     (c \<in> set [9, 10, 11, 12, 13, 32, 160, 5760, 8232, 8233, 8239, 8287, 12288, 65279]
      \<or> (8192 \<le> c \<and> c \<le> 8202))"

definition trim :: "jstring \<Rightarrow> jstring" where
  "trim s = rev (dropWhile is_space (rev (dropWhile is_space s)))"

section \<open>The pane and its table\<close>

text \<open>
  A row of the grid is the object the server sent for one parameter. Its properties are
  the columns of the table; \<open>r_value\<close> is the property \<^verbatim>\<open>value\<close> that the cell-change
  handler reads. A property the object lacks is \<^const>\<open>JUndefined\<close>.
\<close>

record row =
  r_target :: jsval
  r_low :: jsval
  r_high :: jsval
  r_scaler :: jsval
  r_adder :: jsval
  r_fd_step :: jsval
  r_name :: jsval
  r_value :: jsval

text \<open>
  What \<^verbatim>\<open>loadData\<close> receives and the grid holds: an array of rows, or any other value.
  Every array is truthy, the empty one too.
\<close>

datatype props = PRows "row list" | PVal jsval

fun truthy_props :: "props \<Rightarrow> bool" where
  "truthy_props (PRows rs) = True"
| "truthy_props (PVal v) = truthy v"

text \<open>
  The state of one \<^verbatim>\<open>ParametersPane\<close>: its constructor arguments \<open>pathname\<close>,
  \<open>name\<close> and \<open>editable\<close>, the data held by the grid \<^verbatim>\<open>parms\<close>, the commands
  passed to \<^verbatim>\<open>model.issueCommand\<close> so far and the texts shown by \<^verbatim>\<open>alert\<close> so far.
  Logging (\<^verbatim>\<open>console.log\<close>, \<^verbatim>\<open>debug.info\<close>) and \<^verbatim>\<open>resizeCanvas\<close> change none of these.
\<close>

record pane =
  pathname :: jstring
  pane_name :: jstring
  editable :: bool
  parms_data :: props
  issued :: "jstring list"
  alerts :: "jstring list"

definition issueCommand :: "jstring \<Rightarrow> pane \<Rightarrow> pane" where
  "issueCommand cmd p = p\<lparr>issued := issued p @ [cmd]\<rparr>"

subsection \<open>The handlers of the grid\<close>

text \<open>
  \<^verbatim>\<open>parms.onCellChange\<close>: subscribed only when the pane is editable; \<open>item\<close> is
  \<^verbatim>\<open>args.item\<close>.
\<close>

definition onCellChange :: "row \<Rightarrow> pane \<Rightarrow> error + pane" where
  "onCellChange item p =
     (if editable p then
        (let cmd = pathname p @ js ''.'' @ to_string (r_name item) @ js ''='' @ to_string (r_value item)
         in Inr (issueCommand cmd p))
      else Inr p)"

text \<open>
  \<^verbatim>\<open>parms.onClick\<close>: \<open>cell\<close> is what \<^verbatim>\<open>getCellFromEvent\<close> returned, \<open>None\<close> for
  \<^verbatim>\<open>null\<close> (a click outside the cells). Reading a property of \<^verbatim>\<open>null\<close> or
  \<^verbatim>\<open>undefined\<close>, and calling \<^verbatim>\<open>split\<close> on a value that is not a string, throw a
  TypeError.
\<close>

record cellpos =
  c_row :: nat
  c_cell :: nat

definition getRow :: "props \<Rightarrow> nat \<Rightarrow> row option" where
  "getRow d i = (case d of PRows rs \<Rightarrow> (if i < length rs then Some (rs ! i) else None)
                 | PVal v \<Rightarrow> None)"

definition onClick :: "cellpos option \<Rightarrow> pane \<Rightarrow> error + pane" where
  "onClick cell p =
     (case cell of None \<Rightarrow> Inl TypeError
      | Some c \<Rightarrow>
         (if c_cell c = 0 then
            (case getRow (parms_data p) (c_row c) of None \<Rightarrow> Inl TypeError
             | Some r \<Rightarrow>
                (case r_name r of
                   JStr delname \<Rightarrow>
                     (let cmd = (if length (split 44 delname) > 1
                                 then pathname p @ js ''.remove_parameter('' @ delname @ js '');''
                                 else pathname p @ js ''.remove_parameter('' @ [34] @ delname
                                      @ [34] @ js '');'')
                      in Inr (issueCommand cmd p))
                 | _ \<Rightarrow> Inl TypeError))
          else Inr p))"

subsection \<open>Adding and clearing parameters\<close>

text \<open>The loop over \<^verbatim>\<open>targets\<close> of a group: each member trimmed, quoted, followed by a comma.\<close>

fun group_loop :: "jstring \<Rightarrow> jstring list \<Rightarrow> jstring" where
  "group_loop cmd [] = cmd"
| "group_loop cmd (t # ts) = group_loop (cmd @ [39] @ trim t @ [39] @ js '','') ts"

definition addParameter ::
  "jsval \<Rightarrow> jsval \<Rightarrow> jsval \<Rightarrow> jsval \<Rightarrow> jsval \<Rightarrow> jsval \<Rightarrow> pane \<Rightarrow> error + pane" where
  "addParameter target low high scaler adder nm p =
     (case target of
        JStr t \<Rightarrow>
          (let targets = split 44 t;
               cmd = (if length targets > 1
                      then group_loop (pathname p @ js ''.add_parameter(('') targets @ js '')''
                      else pathname p @ js ''.add_parameter('' @ [39] @ t @ [39]);
               cmd = (if truthy low then cmd @ js '',low='' @ to_string low else cmd);
               cmd = (if truthy high then cmd @ js '',high='' @ to_string high else cmd);
               cmd = (if truthy scaler then cmd @ js '',scaler='' @ to_string scaler else cmd);
               cmd = (if truthy adder then cmd @ js '',adder='' @ to_string adder else cmd);
               cmd = (if truthy nm
                      then cmd @ js '',name='' @ [39] @ to_string nm @ [39] else cmd);
               cmd = cmd @ js '');''
           in Inr (issueCommand cmd p))
      | _ \<Rightarrow> Inl TypeError)"

definition clearParameters :: "pane \<Rightarrow> pane" where
  "clearParameters p = issueCommand (pathname p @ js ''.clear_parameters();'') p"

subsection \<open>Loading the table\<close>

definition loadData :: "props \<Rightarrow> pane \<Rightarrow> error + pane" where
  "loadData properties p =
     (if truthy_props properties then Inr (p\<lparr>parms_data := properties\<rparr>)
      else Inr (p\<lparr>parms_data := PRows [],
                 alerts := alerts p @ [js ''Error getting properties for '' @ pathname p
                                       @ js '' ('' @ pane_name p @ js '')'']\<rparr>))"

subsection \<open>Dispatching the pane's events\<close>

text \<open>
  The handlers the pane registers, as one function. Clicking the add button starts
  \<^verbatim>\<open>promptForParameter\<close>, which touches none of the pane's fields until its dialog
  is confirmed; the confirmation calls \<^verbatim>\<open>addParameter\<close> with the six texts of the form.
\<close>

datatype event =
    CellChange row
  | Click "cellpos option"
  | AddButton
  | DialogOk jstring jstring jstring jstring jstring jstring
  | ClrButton
  | LoadData props

fun dispatch :: "event \<Rightarrow> pane \<Rightarrow> error + pane" where
  "dispatch (CellChange item) p = onCellChange item p"
| "dispatch (Click cell) p = onClick cell p"
| "dispatch AddButton p = Inr p"
| "dispatch (DialogOk t l h s a n) p =
     addParameter (JStr t) (JStr l) (JStr h) (JStr s) (JStr a) (JStr n) p"
| "dispatch ClrButton p = Inr (clearParameters p)"
| "dispatch (LoadData properties) p = loadData properties p"

text \<open>
  An exception ends the handler that threw it and nothing else; every throw above comes
  before the handler's first effect, so the pane is then as it was.
\<close>

definition after_event :: "pane \<Rightarrow> event \<Rightarrow> pane" where
  "after_event p e = (case dispatch e p of Inr p' \<Rightarrow> p' | Inl err \<Rightarrow> p)"

definition run_events :: "pane \<Rightarrow> event list \<Rightarrow> pane" where
  "run_events p es = foldl after_event p es"

fun is_load :: "event \<Rightarrow> bool" where
  "is_load (LoadData properties) = True"
| "is_load e = False"

section \<open>The candidate scan\<close>

text \<open>
  \<^verbatim>\<open>findComps\<close> is the callback of \<^verbatim>\<open>model.getWorkflow\<close>. Each run of it declares
  its own arrays \<^verbatim>\<open>candidates\<close> and \<^verbatim>\<open>limits\<close>, asks \<^verbatim>\<open>model.getComponent\<close> for
  every component of the workflow and hands to each request a closure \<^verbatim>\<open>findInputs\<close>
  over these arrays and over \<^verbatim>\<open>comppath\<close>. A component's description may lack the
  list \<^verbatim>\<open>Inputs\<close>.
\<close>

record input =
  i_name :: jsval
  i_low :: jsval
  i_high :: jsval

record cjson =
  Inputs :: "input list option"

record scan =
  candidates :: "jstring list"
  limits :: "jstring \<rightharpoonup> jsval \<times> jsval"
  requests :: "jstring list"

text \<open>\<^verbatim>\<open>comp.pathname.split('.').slice(-1)[0]\<close>\<close>

definition comppath :: "jstring \<Rightarrow> jstring" where
  "comppath path = last (split 46 path)"

text \<open>The body of the loop over \<^verbatim>\<open>cjson.Inputs\<close>, for one input.\<close>

definition input_step :: "jstring \<Rightarrow> scan \<Rightarrow> input \<Rightarrow> scan" where
  "input_step cpath sc inp =
     (let low = JNull;
          high = JNull;
          low = (if truthy (i_low inp) then i_low inp else low);
          high = (if truthy (i_high inp) then i_high inp else high);
          fullpath = cpath @ js ''.'' @ to_string (i_name inp)
      in sc\<lparr>candidates := candidates sc @ [fullpath],
             limits := (limits sc)(fullpath \<mapsto> (low, high))\<rparr>)"

text \<open>
  \<^verbatim>\<open>jQuery.each\<close> belongs to jQuery, not to this file. On \<^verbatim>\<open>undefined\<close> it throws a
  TypeError in the releases that read \<^verbatim>\<open>object.length\<close> first and does nothing in
  the later ones; \<open>each_throws\<close> says which.
\<close>

definition findInputs :: "bool \<Rightarrow> jstring \<Rightarrow> cjson \<Rightarrow> scan \<Rightarrow> error + scan" where
  "findInputs each_throws cpath cj sc =
     (case Inputs cj of
        None \<Rightarrow> (if each_throws then Inl TypeError else Inr sc)
      | Some ins \<Rightarrow> Inr (foldl (input_step cpath) sc ins))"

text \<open>
  The reply to the request for the component \<open>path\<close> runs that request's closure; an
  exception in it ends this callback only.
\<close>

definition on_reply :: "bool \<Rightarrow> scan \<Rightarrow> jstring \<times> cjson \<Rightarrow> scan" where
  "on_reply each_throws sc r =
     (case findInputs each_throws (comppath (fst r)) (snd r) sc of
        Inr sc' \<Rightarrow> sc' | Inl err \<Rightarrow> sc)"

text \<open>\<^verbatim>\<open>findComps\<close> up to the dialog: fresh arrays, one request per component.\<close>

definition findComps :: "jstring list \<Rightarrow> scan" where
  "findComps workflow = \<lparr>candidates = [], limits = Map.empty, requests = workflow\<rparr>"

text \<open>
  The add button can be clicked again and again, so the runs of \<^verbatim>\<open>findComps\<close> form a
  list, the arrays of the \<open>k\<close>-th run at index \<open>k\<close>. The pane itself declares arrays
  of the same names, \<open>outer_candidates\<close> and \<open>outer_limits\<close>; inside \<^verbatim>\<open>findComps\<close>
  and \<^verbatim>\<open>findInputs\<close> the names mean the run's own arrays. A reply belongs to the run
  that sent its request, whenever it arrives.
\<close>

record prompts =
  outer_candidates :: "jstring list"
  outer_limits :: "jstring \<rightharpoonup> jsval \<times> jsval"
  runs :: "scan list"

text \<open>The pane's constructor: \<^verbatim>\<open>candidates = [], limits = {}\<close>, and no run yet.\<close>

definition new_prompts :: prompts where
  "new_prompts = \<lparr>outer_candidates = [], outer_limits = Map.empty, runs = []\<rparr>"

text \<open>
  What arrives from the server: the workflow asked for by a click on the add button,
  which runs \<^verbatim>\<open>findComps\<close>, or the description of the component \<open>path\<close> asked for
  by the run \<open>k\<close>, which runs that request's \<^verbatim>\<open>findInputs\<close>.
\<close>

datatype scan_event =
    Workflow "jstring list"
  | Component nat jstring cjson

fun scan_step :: "bool \<Rightarrow> prompts \<Rightarrow> scan_event \<Rightarrow> prompts" where
  "scan_step each_throws st (Workflow workflow) = st\<lparr>runs := runs st @ [findComps workflow]\<rparr>"
| "scan_step each_throws st (Component k path cj) =
     (if k < length (runs st) \<and> path \<in> set (requests (runs st ! k))
      then st\<lparr>runs := (runs st)[k := on_reply each_throws (runs st ! k) (path, cj)]\<rparr>
      else st)"

text \<open>
  \<^verbatim>\<open>parm_selector.autocomplete({ source: candidates, minLength:0})\<close>: the dialog of the
  run \<open>k\<close> offers that run's array.
\<close>

definition offered :: "prompts \<Rightarrow> nat \<Rightarrow> jstring list" where
  "offered st k = candidates (runs st ! k)"

text \<open>The replies among \<open>es\<close> that the run \<open>k\<close> with the workflow \<open>w\<close> receives.\<close>

fun replies_of :: "nat \<Rightarrow> jstring list \<Rightarrow> scan_event list \<Rightarrow> (jstring \<times> cjson) list" where
  "replies_of k w [] = []"
| "replies_of k w (Workflow workflow # es) = replies_of k w es"
| "replies_of k w (Component j path cj # es) =
     (if j = k \<and> path \<in> set w then (path, cj) # replies_of k w es
      else replies_of k w es)"

text \<open>The names one reply adds, as the claim words them.\<close>

definition reply_names :: "jstring \<times> cjson \<Rightarrow> jstring list" where
  "reply_names r =
     (case Inputs (snd r) of None \<Rightarrow> []
      | Some ins \<Rightarrow> map (\<lambda>inp. comppath (fst r) @ js ''.'' @ to_string (i_name inp)) ins)"

section \<open>The dialog\<close>

text \<open>
  The dialog \<^verbatim>\<open>win\<close> of one run of \<^verbatim>\<open>findComps\<close>: open, hidden by
  \<^verbatim>\<open>dialog('close')\<close>, or removed from the document by \<^verbatim>\<open>win.remove()\<close>. Its six
  text inputs hold what the user typed; \<open>d_calls\<close> lists the arguments of every call of
  \<^verbatim>\<open>callback\<close>.
\<close>

datatype dstate = Open | Hidden | Removed

datatype form_field = Target | Low | High | Scaler | Adder | Name

record dialog =
  d_state :: dstate
  d_val :: "form_field \<Rightarrow> jstring"
  d_calls :: "(jsval \<times> jsval \<times> jsval \<times> jsval \<times> jsval \<times> jsval) list"

definition new_dialog :: dialog where
  "new_dialog = \<lparr>d_state = Open, d_val = (\<lambda>f. []), d_calls = []\<rparr>"

text \<open>The click handlers of the two buttons, statement by statement.\<close>

definition ok_click :: "dialog \<Rightarrow> dialog" where
  "ok_click d =
     (let d = d\<lparr>d_state := Hidden\<rparr>;
          d = d\<lparr>d_calls := d_calls d @
                 [(JStr (d_val d Target), JStr (d_val d Low), JStr (d_val d High),
                   JStr (d_val d Scaler), JStr (d_val d Adder), JStr (d_val d Name))]\<rparr>
      in d\<lparr>d_state := Removed\<rparr>)"

definition cancel_click :: "dialog \<Rightarrow> dialog" where
  "cancel_click d = (let d = d\<lparr>d_state := Hidden\<rparr> in d\<lparr>d_state := Removed\<rparr>)"

text \<open>
  What the user can do: type into an input (or pick a suggestion, which sets the input),
  click one of the two buttons, or close the dialog by the widget's own means (its
  title-bar icon, the escape key), for which this file registers no handler. The inputs
  and buttons of a dialog that is not open are not on the screen.
\<close>

datatype dialog_event = Type form_field jstring | ClickOk | ClickCancel | WidgetClose

definition dialog_step :: "dialog \<Rightarrow> dialog_event \<Rightarrow> dialog" where
  "dialog_step d ev =
     (if d_state d \<noteq> Open then d
      else (case ev of
              Type f s \<Rightarrow> d\<lparr>d_val := (d_val d)(f := s)\<rparr>
            | ClickOk \<Rightarrow> ok_click d
            | ClickCancel \<Rightarrow> cancel_click d
            | WidgetClose \<Rightarrow> d\<lparr>d_state := Hidden\<rparr>))"

definition lifetime :: "dialog_event list \<Rightarrow> dialog" where
  "lifetime evs = foldl dialog_step new_dialog evs"

text \<open>The event that closes the dialog: the first one that is not typing.\<close>

fun closed_by :: "dialog_event list \<Rightarrow> dialog_event option" where
  "closed_by [] = None"
| "closed_by (Type f s # evs) = closed_by evs"
| "closed_by (ev # evs) = Some ev"

section \<open>The vocabulary of the claims\<close>

text \<open>
  The values the guards \<^verbatim>\<open>if (low)\<close> \<dots> \<^verbatim>\<open>if (name)\<close> take for absent: undefined,
  null, false, the number zero and the empty string.
\<close>

definition falsy_values :: "jsval set" where
  "falsy_values = {JUndefined, JNull, JBool False, JNum 0, JStr []}"

text \<open>
  An option clause as the specification words it: nothing for a falsy value, else the
  key followed by the value as it is; the name's value between single quotes.
\<close>

definition option_clause :: "jstring \<Rightarrow> jsval \<Rightarrow> jstring" where
  "option_clause key v = (if v \<in> falsy_values then [] else key @ to_string v)"

definition name_clause :: "jsval \<Rightarrow> jstring" where
  "name_clause v =
     (if v \<in> falsy_values then [] else js '',name='' @ [39] @ to_string v @ [39])"

definition options_text :: "jsval \<Rightarrow> jsval \<Rightarrow> jsval \<Rightarrow> jsval \<Rightarrow> jsval \<Rightarrow> jstring" where
  "options_text low high scaler adder nm =
     option_clause (js '',low='') low @ option_clause (js '',high='') high @
     option_clause (js '',scaler='') scaler @ option_clause (js '',adder='') adder @ name_clause nm"

text \<open>
  A multi-target input: members joined by commas, each member \<open>m\<close> between white space
  \<open>l\<close> and \<open>r\<close>. A member has no comma and no white space at its ends. The group
  literal lists the members single-quoted, each followed by a comma.
\<close>

fun join :: "jstring list \<Rightarrow> jstring" where
  "join [] = []"
| "join [x] = x"
| "join (x # y # ys) = x @ [44] @ join (y # ys)"

definition padded :: "jstring \<times> jstring \<times> jstring \<Rightarrow> jstring" where
  "padded x = (case x of (l, m, r) \<Rightarrow> l @ m @ r)"

definition member_text :: "jstring \<times> jstring \<times> jstring \<Rightarrow> jstring" where
  "member_text x = (case x of (l, m, r) \<Rightarrow> m)"

definition member_ok :: "jstring \<times> jstring \<times> jstring \<Rightarrow> bool" where
  "member_ok x = (case x of (l, m, r) \<Rightarrow>
     list_all is_space l \<and> list_all is_space r \<and> 44 \<notin> set m \<and>
     (m = [] \<or> (\<not> is_space (hd m) \<and> \<not> is_space (last m))))"

definition group_literal :: "jstring list \<Rightarrow> jstring" where
  "group_literal ms = js ''('' @ concat (map (\<lambda>m. [39] @ m @ [39] @ js '','') ms) @ js '')''"

text \<open>
  A pane and rows to run the handlers on: \<open>mk_row target nm\<close> has the target and the
  name given and no other property. \<open>last_command\<close> reads the command a handler issued.
\<close>

definition pane0 :: pane where
  "pane0 = \<lparr>pathname = js ''path'', pane_name = js ''driver'', editable = True,
            parms_data = PRows [], issued = [], alerts = []\<rparr>"

definition mk_row :: "jsval \<Rightarrow> jsval \<Rightarrow> row" where
  "mk_row target nm = \<lparr>r_target = target, r_low = JUndefined, r_high = JUndefined,
     r_scaler = JUndefined, r_adder = JUndefined, r_fd_step = JUndefined, r_name = nm,
     r_value = JUndefined\<rparr>"

definition last_command :: "error + pane \<Rightarrow> error + jstring" where
  "last_command res = map_sum id (\<lambda>p. last (issued p)) res"

text \<open>
  A bound as the scan records it: null for a falsy value, else the value. \<open>inputs_count\<close>
  is the number of inputs a reply lists, none when it has no list.
\<close>

definition bound :: "jsval \<Rightarrow> jsval" where
  "bound v = (if v \<in> falsy_values then JNull else v)"

definition inputs_count :: "jstring \<times> cjson \<Rightarrow> nat" where
  "inputs_count r = (case Inputs (snd r) of None \<Rightarrow> 0 | Some ins \<Rightarrow> length ins)"

text \<open>
  The entries one reply records in the bounds map, as the claim words them: for each
  input, in order, its name with the pair of its bounds.
\<close>

definition reply_bounds :: "jstring \<times> cjson \<Rightarrow> (jstring \<times> jsval \<times> jsval) list" where
  "reply_bounds r =
     (case Inputs (snd r) of None \<Rightarrow> []
      | Some ins \<Rightarrow>
          map (\<lambda>inp. (comppath (fst r) @ js ''.'' @ to_string (i_name inp),
                       bound (i_low inp), bound (i_high inp))) ins)"

text \<open>
  An input with a name that is a string, and a run of \<^verbatim>\<open>findComps\<close> that has
  already gathered a candidate.
\<close>

definition mk_input :: "jstring \<Rightarrow> jsval \<Rightarrow> jsval \<Rightarrow> input" where
  "mk_input nm lo hi = \<lparr>i_name = JStr nm, i_low = lo, i_high = hi\<rparr>"

definition scan0 :: scan where
  "scan0 = \<lparr>candidates = [js ''c0.z''], limits = [js ''c0.z'' \<mapsto> (JNum 1, JNum 2)],
            requests = [js ''top.c1'', js ''top.c2'']\<rparr>"

section \<open>Splitting, trimming and the text of the commands\<close>

lemma split_not_Nil: "split c s \<noteq> []"
  by (induction s) (auto simp: Let_def)

lemma split_no_sep: "c \<notin> set s \<Longrightarrow> split c s = [s]"
  by (induction s) (auto simp: Let_def)

lemma length_split_gt1: "(1 < length (split c s)) = (c \<in> set s)"
proof (induction s)
  case Nil
  then show ?case by simp
next
  case (Cons x xs)
  have "length (split c xs) \<noteq> 0" using split_not_Nil [of c xs] by simp
  then show ?case using Cons by (auto simp: Let_def)
qed

lemma split_append_sep:
  "c \<notin> set s \<Longrightarrow> split c (s @ c # rest) = s # split c rest"
  by (induction s) (auto simp: Let_def)

lemma split_join:
  "ps \<noteq> [] \<Longrightarrow> \<forall>s\<in>set ps. 44 \<notin> set s \<Longrightarrow> split 44 (join ps) = ps"
proof (induction ps rule: join.induct)
  case 1
  then show ?case by simp
next
  case (2 x)
  then show ?case by (simp add: split_no_sep)
next
  case (3 x y ys)
  then show ?case by (simp add: split_append_sep)
qed

lemma truthy_falsy_values: "(\<not> truthy v) = (v \<in> falsy_values)"
  by (cases v) (auto simp: falsy_values_def)

lemma group_loop_concat:
  "group_loop cmd ts = cmd @ concat (map (\<lambda>t. [39] @ trim t @ [39] @ js '','') ts)"
  by (induction ts arbitrary: cmd) auto

lemma add_options:
  "(let cmd = (if truthy low then cmd0 @ js '',low='' @ to_string low else cmd0);
        cmd = (if truthy high then cmd @ js '',high='' @ to_string high else cmd);
        cmd = (if truthy scaler then cmd @ js '',scaler='' @ to_string scaler else cmd);
        cmd = (if truthy adder then cmd @ js '',adder='' @ to_string adder else cmd);
        cmd = (if truthy nm
               then cmd @ js '',name='' @ [39] @ to_string nm @ [39] else cmd);
        cmd = cmd @ js '');''
    in f cmd) = f (cmd0 @ options_text low high scaler adder nm @ js '');'')"
  by (simp add: Let_def options_text_def option_clause_def name_clause_def
      truthy_falsy_values [symmetric])

lemma addParameter_single:
  "44 \<notin> set t \<Longrightarrow>
   addParameter (JStr t) low high scaler adder nm p =
     Inr (issueCommand (pathname p @ js ''.add_parameter('' @ [39] @ t @ [39]
                        @ options_text low high scaler adder nm @ js '');'') p)"
  unfolding addParameter_def jsval.case
  apply (subst Let_def)
  apply (subst Let_def)
  apply (simp only: length_split_gt1 if_False add_options)
  apply simp
  done

lemma addParameter_group:
  "44 \<in> set t \<Longrightarrow>
   addParameter (JStr t) low high scaler adder nm p =
     Inr (issueCommand (pathname p @ js ''.add_parameter((''
                        @ concat (map (\<lambda>t. [39] @ trim t @ [39] @ js '','') (split 44 t))
                        @ js '')'' @ options_text low high scaler adder nm @ js '');'') p)"
  unfolding addParameter_def jsval.case
  apply (subst Let_def)
  apply (subst Let_def)
  apply (simp only: length_split_gt1 if_True add_options group_loop_concat)
  apply simp
  done

lemma is_space_not_comma: "is_space c \<Longrightarrow> c \<noteq> 44"
  by (auto simp: is_space_def)

lemma trim_padded:
  assumes l: "list_all is_space l" and r: "list_all is_space r"
    and m: "m = [] \<or> (\<not> is_space (hd m) \<and> \<not> is_space (last m))"
  shows "trim (l @ m @ r) = m"
proof (cases "m = []")
  case True
  have a: "dropWhile is_space (l @ [] @ r) = []"
    using l r by (auto simp: list_all_iff)
  show ?thesis unfolding True trim_def a by simp
next
  case False
  then obtain x xs where mx: "m = x # xs" by (cases m) auto
  have hd: "\<not> is_space x" using m mx by simp
  have lastm: "\<not> is_space (last m)" using m False by simp
  have step1: "dropWhile is_space (l @ m @ r) = m @ r"
    using l hd mx by (simp add: dropWhile_append list_all_iff)
  have "rev m \<noteq> []" using False by simp
  then obtain y ys where ry: "rev m = y # ys" by (cases "rev m") auto
  have "y = last m" using ry False by (metis hd_rev list.sel(1))
  then have ny: "\<not> is_space y" using lastm by simp
  have step2: "dropWhile is_space (rev r @ rev m) = rev m"
    using r ny ry by (simp add: dropWhile_append list_all_iff)
  show ?thesis unfolding trim_def step1 by (simp add: step2)
qed

lemma member_ok_no_comma: "member_ok x \<Longrightarrow> 44 \<notin> set (padded x)"
  by (cases x) (auto simp: member_ok_def padded_def list_all_iff dest: is_space_not_comma)

lemma member_ok_trim: "member_ok x \<Longrightarrow> trim (padded x) = member_text x"
  by (cases x) (simp add: member_ok_def padded_def member_text_def trim_padded)

lemma onClick_named:
  assumes "getRow (parms_data p) i = Some r" and "r_name r = JStr delname"
  shows "onClick (Some \<lparr>c_row = i, c_cell = 0\<rparr>) p =
           Inr (issueCommand
                 (if 44 \<in> set delname
                  then pathname p @ js ''.remove_parameter('' @ delname @ js '');''
                  else pathname p @ js ''.remove_parameter('' @ [34] @ delname @ [34]
                       @ js '');'') p)"
  using assms length_split_gt1 [of "44" delname]
  by (simp add: onClick_def Let_def)

lemma remove_text_inj:
  "((if 44 \<in> set n then P @ js ''.remove_parameter('' @ n @ js '');''
     else P @ js ''.remove_parameter('' @ [34] @ n @ [34] @ js '');'')
    = (if 44 \<in> set n' then P @ js ''.remove_parameter('' @ n' @ js '');''
       else P @ js ''.remove_parameter('' @ [34] @ n' @ [34] @ js '');''))
   = (n = n')"
  by auto

section \<open>The remove command\<close>

text \<open>
  C1, as claimed, at the group identity \<open>a.x,a.y\<close>: the handler puts the identity
  between the parentheses of the call and adds none of its own, so the command is
  \<^verbatim>\<open>path.remove_parameter(a.x,a.y);\<close> and not \<^verbatim>\<open>path.remove_parameter((a.x,a.y));\<close>.
\<close>

theorem remove_group_counterexample:
  "onClick (Some \<lparr>c_row = 0, c_cell = 0\<rparr>)
     (pane0\<lparr>parms_data := PRows [mk_row (JStr (js ''a.x,a.y'')) (JStr (js ''a.x,a.y''))]\<rparr>)
     = Inr (issueCommand (js ''path.remove_parameter(a.x,a.y);'')
            (pane0\<lparr>parms_data := PRows [mk_row (JStr (js ''a.x,a.y'')) (JStr (js ''a.x,a.y''))]\<rparr>)) \<and>
   onClick (Some \<lparr>c_row = 0, c_cell = 0\<rparr>)
     (pane0\<lparr>parms_data := PRows [mk_row (JStr (js ''a.x,a.y'')) (JStr (js ''a.x,a.y''))]\<rparr>)
     \<noteq> Inr (issueCommand (js ''path.remove_parameter((a.x,a.y));'')
            (pane0\<lparr>parms_data := PRows [mk_row (JStr (js ''a.x,a.y'')) (JStr (js ''a.x,a.y''))]\<rparr>))"
  by (simp add: onClick_def getRow_def mk_row_def issueCommand_def pane0_def Let_def js_def)

text \<open>
  C1, amended: for every row whose name is a string, a click on its delete cell issues
  the entity path, \<^verbatim>\<open>.remove_parameter(\<close>, the name, and \<^verbatim>\<open>);\<close>; a name with a
  comma is emitted as it is, unquoted and with no parentheses added, a name without a
  comma between double quotes.
\<close>

theorem remove_command:
  assumes "getRow (parms_data p) i = Some r" and "r_name r = JStr delname"
  shows "onClick (Some \<lparr>c_row = i, c_cell = 0\<rparr>) p =
           Inr (issueCommand
                 (if 44 \<in> set delname
                  then pathname p @ js ''.remove_parameter('' @ delname @ js '');''
                  else pathname p @ js ''.remove_parameter('' @ [34] @ delname @ [34]
                       @ js '');'') p)"
  using assms by (rule onClick_named)

text \<open>
  C1, amended, on a table of two rows: the group name \<open>(b.x,b.y)\<close> carries its own
  parentheses, the single name \<open>a.x\<close> is quoted.
\<close>

theorem remove_command_witness:
  "onClick (Some \<lparr>c_row = 1, c_cell = 0\<rparr>)
     (pane0\<lparr>parms_data := PRows [mk_row (JStr (js ''a.x'')) (JStr (js ''a.x'')),
                                   mk_row (JStr (js ''b.x,b.y'')) (JStr (js ''(b.x,b.y)''))]\<rparr>)
     = Inr (issueCommand (js ''path.remove_parameter((b.x,b.y));'')
            (pane0\<lparr>parms_data := PRows [mk_row (JStr (js ''a.x'')) (JStr (js ''a.x'')),
                                          mk_row (JStr (js ''b.x,b.y'')) (JStr (js ''(b.x,b.y)''))]\<rparr>)) \<and>
   onClick (Some \<lparr>c_row = 0, c_cell = 0\<rparr>)
     (pane0\<lparr>parms_data := PRows [mk_row (JStr (js ''a.x'')) (JStr (js ''a.x'')),
                                   mk_row (JStr (js ''b.x,b.y'')) (JStr (js ''(b.x,b.y)''))]\<rparr>)
     = Inr (issueCommand (js ''path.remove_parameter('' @ [34] @ js ''a.x'' @ [34] @ js '');'')
            (pane0\<lparr>parms_data := PRows [mk_row (JStr (js ''a.x'')) (JStr (js ''a.x'')),
                                          mk_row (JStr (js ''b.x,b.y'')) (JStr (js ''(b.x,b.y)''))]\<rparr>))"
  using remove_command [of "pane0\<lparr>parms_data := PRows [mk_row (JStr (js ''a.x'')) (JStr (js ''a.x'')),
                                   mk_row (JStr (js ''b.x,b.y'')) (JStr (js ''(b.x,b.y)''))]\<rparr>" 1
                           "mk_row (JStr (js ''b.x,b.y'')) (JStr (js ''(b.x,b.y)''))" "(js ''(b.x,b.y)'')"]
        remove_command [of "pane0\<lparr>parms_data := PRows [mk_row (JStr (js ''a.x'')) (JStr (js ''a.x'')),
                                   mk_row (JStr (js ''b.x,b.y'')) (JStr (js ''(b.x,b.y)''))]\<rparr>" 0
                           "mk_row (JStr (js ''a.x'')) (JStr (js ''a.x''))" "(js ''a.x'')"]
  by (simp add: getRow_def mk_row_def pane0_def js_def)

text \<open>
  C5, as claimed, at a row with the target \<open>a.x\<close> and no name: the handler does not
  fall back on the target; \<^verbatim>\<open>delname.split\<close> throws and no command is issued.
\<close>

theorem delete_unnamed_counterexample:
  "onClick (Some \<lparr>c_row = 0, c_cell = 0\<rparr>)
     (pane0\<lparr>parms_data := PRows [mk_row (JStr (js ''a.x'')) JUndefined]\<rparr>) = Inl TypeError \<and>
   onClick (Some \<lparr>c_row = 0, c_cell = 0\<rparr>)
     (pane0\<lparr>parms_data := PRows [mk_row (JStr (js ''a.x'')) JUndefined]\<rparr>)
     \<noteq> Inr (issueCommand (js ''path.remove_parameter('' @ [34] @ js ''a.x'' @ [34] @ js '');'')
            (pane0\<lparr>parms_data := PRows [mk_row (JStr (js ''a.x'')) JUndefined]\<rparr>))"
  by (simp add: onClick_def getRow_def mk_row_def pane0_def)

text \<open>
  C5, amended: the identity used by a click on the delete cell is the row's name, a
  string, and nothing else of the row. Two clicks issue the same command exactly when the
  two rows clicked have the same name, whatever their targets and other fields.
\<close>

theorem delete_identity:
  assumes "getRow (parms_data p) i = Some r" and "r_name r = JStr n"
    and "getRow (parms_data q) j = Some r'" and "r_name r' = JStr n'"
    and "pathname q = pathname p"
  shows "(last_command (onClick (Some \<lparr>c_row = i, c_cell = 0\<rparr>) p)
          = last_command (onClick (Some \<lparr>c_row = j, c_cell = 0\<rparr>) q)) = (n = n')"
proof -
  let ?a = "if 44 \<in> set n then pathname p @ js ''.remove_parameter('' @ n @ js '');''
            else pathname p @ js ''.remove_parameter('' @ [34] @ n @ [34] @ js '');''"
  let ?b = "if 44 \<in> set n' then pathname p @ js ''.remove_parameter('' @ n' @ js '');''
            else pathname p @ js ''.remove_parameter('' @ [34] @ n' @ [34] @ js '');''"
  have A: "last_command (onClick (Some \<lparr>c_row = i, c_cell = 0\<rparr>) p) = Inr ?a"
    unfolding onClick_named [OF assms(1,2)] last_command_def issueCommand_def by simp
  have B: "last_command (onClick (Some \<lparr>c_row = j, c_cell = 0\<rparr>) q) = Inr ?b"
    unfolding onClick_named [OF assms(3,4)] assms(5) last_command_def issueCommand_def by simp
  show ?thesis unfolding A B sum.inject by (rule remove_text_inj)
qed

text \<open>
  C5, amended, at two tables: the rows clicked differ in target and position and share
  the name \<open>p1\<close>; the commands are the same.
\<close>

theorem delete_identity_witness:
  "last_command (onClick (Some \<lparr>c_row = 0, c_cell = 0\<rparr>)
      (pane0\<lparr>parms_data := PRows [mk_row (JStr (js ''a.x'')) (JStr (js ''p1''))]\<rparr>))
   = last_command (onClick (Some \<lparr>c_row = 1, c_cell = 0\<rparr>)
      (pane0\<lparr>parms_data := PRows [mk_row (JStr (js ''z'')) (JStr (js ''q'')),
                                    mk_row (JStr (js ''b.y'')) (JStr (js ''p1''))]\<rparr>))"
  using delete_identity [of "pane0\<lparr>parms_data := PRows [mk_row (JStr (js ''a.x'')) (JStr (js ''p1''))]\<rparr>" 0
      "mk_row (JStr (js ''a.x'')) (JStr (js ''p1''))" "(js ''p1'')"
      "pane0\<lparr>parms_data := PRows [mk_row (JStr (js ''z'')) (JStr (js ''q'')),
                                    mk_row (JStr (js ''b.y'')) (JStr (js ''p1''))]\<rparr>" 1
      "mk_row (JStr (js ''b.y'')) (JStr (js ''p1''))" "(js ''p1'')"]
  by (simp add: getRow_def mk_row_def pane0_def)

section \<open>The add command\<close>

text \<open>
  C2: the single target \<open>comp1.x\<close> with low 0, high 10 and no scaler, adder or name.
  \<^verbatim>\<open>addParameter\<close> is private to the pane and called by the dialog alone, with the
  texts of its six inputs: typing the three values and clicking Ok calls it with the
  texts \<open>0\<close> and \<open>10\<close> and four empty texts, and the command issued is exactly
  \<^verbatim>\<open>path.add_parameter('comp1.x',low=0,high=10);\<close>, the clause \<^verbatim>\<open>low=0\<close> included.
\<close>

theorem add_zero_low_scenario:
  "d_calls (lifetime [Type Target (js ''comp1.x''), Type Low (js ''0''), Type High (js ''10''),
                      ClickOk])
     = [(JStr (js ''comp1.x''), JStr (js ''0''), JStr (js ''10''), JStr [], JStr [], JStr [])] \<and>
   dispatch (DialogOk (js ''comp1.x'') (js ''0'') (js ''10'') [] [] []) p
     = Inr (issueCommand (pathname p @ js ''.add_parameter('comp1.x',low=0,high=10);'') p) \<and>
   addParameter (JStr (js ''comp1.x'')) (JStr (js ''0'')) (JStr (js ''10'')) (JStr []) (JStr [])
       (JStr []) p
     = Inr (issueCommand (pathname p @ js ''.add_parameter('comp1.x',low=0,high=10);'') p)"
proof -
  have d: "d_calls (lifetime [Type Target (js ''comp1.x''), Type Low (js ''0''),
                             Type High (js ''10''), ClickOk])
     = [(JStr (js ''comp1.x''), JStr (js ''0''), JStr (js ''10''), JStr [], JStr [], JStr [])]"
    by (simp add: lifetime_def new_dialog_def dialog_step_def ok_click_def Let_def)
  have a: "addParameter (JStr (js ''comp1.x'')) (JStr (js ''0'')) (JStr (js ''10'')) (JStr [])
       (JStr []) (JStr []) p
     = Inr (issueCommand (pathname p @ js ''.add_parameter('comp1.x',low=0,high=10);'') p)"
    by (simp add: addParameter_def Let_def js_def)
  show ?thesis using d a by simp
qed

text \<open>
  C2 on the pane \<open>pane0\<close>, whose path is \<open>path\<close>.
\<close>

theorem add_zero_low_scenario_witness:
  "dispatch (DialogOk (js ''comp1.x'') (js ''0'') (js ''10'') [] [] []) pane0
     = Inr (pane0\<lparr>issued := [js ''path.add_parameter('comp1.x',low=0,high=10);'']\<rparr>)"
  using add_zero_low_scenario [of pane0] by (simp add: issueCommand_def pane0_def js_def)

text \<open>
  C3: for a target without a comma and any five optional values, the command is the
  quoted target followed by the option clauses in the order low, high, scaler, adder,
  name; a clause is absent exactly for a falsy value and holds the value as it is
  otherwise, the name between single quotes.
\<close>

theorem add_single_command:
  assumes "44 \<notin> set t"
  shows "addParameter (JStr t) low high scaler adder nm p =
           Inr (issueCommand (pathname p @ js ''.add_parameter('' @ [39] @ t @ [39]
                              @ option_clause (js '',low='') low @ option_clause (js '',high='') high
                              @ option_clause (js '',scaler='') scaler @ option_clause (js '',adder='') adder
                              @ name_clause nm @ js '');'') p)"
  using addParameter_single [OF assms] by (simp add: options_text_def)

text \<open>
  C3 at the target \<open>comp1.x\<close> with the text \<open>0\<close>, the number 10, an undefined scaler,
  an empty adder and the name \<open>p1\<close>.
\<close>

theorem add_single_command_witness:
  "44 \<notin> set (js ''comp1.x'') \<and>
   addParameter (JStr (js ''comp1.x'')) (JStr (js ''0'')) (JNum 10) JUndefined (JStr []) (JStr (js ''p1'')) pane0
     = Inr (issueCommand (js ''path.add_parameter('comp1.x',low=0,high=10,name='p1');'') pane0)"
  using add_single_command [of "(js ''comp1.x'')" "JStr (js ''0'')" "JNum 10" JUndefined "JStr []"
      "JStr (js ''p1'')" pane0]
  by (simp add: option_clause_def name_clause_def falsy_values_def pane0_def digits.simps js_def)

text \<open>
  C4: for every target with a comma the command holds the group literal of the trimmed
  pieces between the commas, single-quoted and in their order, followed by the option
  clauses. For two or more members, each with any white space around it (spaces, tabs,
  line ends, the no-break space and the other Unicode spaces), joined by commas, the
  pieces are the padded members, trimming gives back the members, and the group literal
  lists exactly the members.
\<close>

theorem add_group_command:
  "(44 \<in> set t \<longrightarrow>
      addParameter (JStr t) low high scaler adder nm p =
        Inr (issueCommand (pathname p @ js ''.add_parameter(''
                           @ group_literal (map trim (split 44 t))
                           @ options_text low high scaler adder nm @ js '');'') p)) \<and>
   (1 < length pms \<and> list_all member_ok pms \<longrightarrow>
      split 44 (join (map padded pms)) = map padded pms \<and>
      map trim (map padded pms) = map member_text pms \<and>
      addParameter (JStr (join (map padded pms))) low high scaler adder nm p =
        Inr (issueCommand (pathname p @ js ''.add_parameter('' @ group_literal (map member_text pms)
                           @ options_text low high scaler adder nm @ js '');'') p))"
proof -
  have A: "addParameter (JStr t) low high scaler adder nm p =
        Inr (issueCommand (pathname p @ js ''.add_parameter(''
                           @ group_literal (map trim (split 44 t))
                           @ options_text low high scaler adder nm @ js '');'') p)"
    if "44 \<in> set t" for t
    using that by (simp add: addParameter_group group_literal_def comp_def js_def)
  have B: "split 44 (join (map padded pms)) = map padded pms \<and>
      map trim (map padded pms) = map member_text pms \<and>
      addParameter (JStr (join (map padded pms))) low high scaler adder nm p =
        Inr (issueCommand (pathname p @ js ''.add_parameter('' @ group_literal (map member_text pms)
                           @ options_text low high scaler adder nm @ js '');'') p)"
    if a: "1 < length pms \<and> list_all member_ok pms"
  proof -
    let ?ps = "map padded pms"
    have ne: "?ps \<noteq> []" using a by auto
    have nc: "\<forall>s\<in>set ?ps. 44 \<notin> set s"
      using a by (auto simp: list_all_iff dest: member_ok_no_comma)
    have sp: "split 44 (join ?ps) = ?ps" using ne nc by (rule split_join)
    have tr: "map trim ?ps = map member_text pms"
      using a by (simp add: list_all_iff member_ok_trim)
    have "1 < length (split 44 (join ?ps))" using sp a by simp
    then have comma: "44 \<in> set (join ?ps)" by (simp only: length_split_gt1)
    show ?thesis using A [OF comma] sp tr by (simp only: simp_thms)
  qed
  show ?thesis using A B by blast
qed

text \<open>
  C4 at the target \<open> a.x , a.y \<close> with the name \<open>grp1\<close>, and at the same two members
  with a no-break space (160) after the first and a no-break space and an em space (8195)
  before the second.
\<close>

theorem add_group_command_witness:
  "addParameter (JStr (js '' a.x , a.y '')) (JStr []) (JStr []) (JStr []) (JStr [])
       (JStr (js ''grp1'')) pane0
     = Inr (issueCommand (js ''path.add_parameter(('a.x','a.y',),name='grp1');'') pane0) \<and>
   split 44 (js '' a.x , a.y '') = [js '' a.x '', js '' a.y ''] \<and>
   map trim [js '' a.x '', js '' a.y ''] = [js ''a.x'', js ''a.y''] \<and>
   addParameter (JStr (js ''a.x'' @ [160, 44, 160, 8195] @ js ''a.y'')) (JStr []) (JStr [])
       (JStr []) (JStr []) (JStr (js ''grp1'')) pane0
     = Inr (issueCommand (js ''path.add_parameter(('a.x','a.y',),name='grp1');'') pane0)"
  using add_group_command [where pms = "[(js '' '', js ''a.x'', js '' ''), (js '' '', js ''a.y'', js '' '')]"
      and t = "js '' a.x , a.y ''"
      and low = "JStr []" and high = "JStr []" and scaler = "JStr []" and adder = "JStr []"
      and nm = "JStr (js ''grp1'')" and p = pane0]
    add_group_command [where pms = "[([], js ''a.x'', [160]), ([160, 8195], js ''a.y'', [])]"
      and t = "js ''a.x'' @ [160, 44, 160, 8195] @ js ''a.y''"
      and low = "JStr []" and high = "JStr []" and scaler = "JStr []" and adder = "JStr []"
      and nm = "JStr (js ''grp1'')" and p = pane0]
  by (simp add: member_ok_def is_space_def padded_def member_text_def group_literal_def
      options_text_def option_clause_def name_clause_def falsy_values_def pane0_def js_def)

section \<open>Loading the table and the frame of the handlers\<close>

text \<open>
  C7: \<^verbatim>\<open>loadData\<close> never throws. With null, undefined or any other falsy value it
  empties the table and shows an alert that names the pane's path and name; with an
  array of rows the table holds exactly these rows, and nothing else changes.
\<close>

theorem loadData_fail_soft:
  "(\<exists>p'. loadData properties p = Inr p') \<and>
   (v \<in> falsy_values \<longrightarrow>
      loadData (PVal v) p =
        Inr (p\<lparr>parms_data := PRows [],
               alerts := alerts p @ [js ''Error getting properties for '' @ pathname p
                                     @ js '' ('' @ pane_name p @ js '')'']\<rparr>)) \<and>
   loadData (PRows rows) p = Inr (p\<lparr>parms_data := PRows rows\<rparr>)"
  by (simp add: loadData_def truthy_falsy_values [symmetric])

text \<open>
  C7 on a table of one row with null, and on the empty table with undefined.
\<close>

theorem loadData_fail_soft_witness:
  "loadData (PVal JNull) (pane0\<lparr>parms_data := PRows [mk_row (JStr (js ''a.x'')) (JStr (js ''a.x''))]\<rparr>)
     = Inr (pane0\<lparr>parms_data := PRows [],
                   alerts := [js ''Error getting properties for path (driver)'']\<rparr>) \<and>
   loadData (PVal JUndefined) pane0
     = Inr (pane0\<lparr>alerts := [js ''Error getting properties for path (driver)'']\<rparr>)"
  using loadData_fail_soft [where v = JNull
      and p = "pane0\<lparr>parms_data := PRows [mk_row (JStr (js ''a.x'')) (JStr (js ''a.x''))]\<rparr>"]
    loadData_fail_soft [where v = JUndefined and p = pane0]
  by (simp add: falsy_values_def pane0_def js_def)

lemma click_issues_only:
  "\<exists>cmds. length cmds \<le> 1 \<and> after_event p (Click cell) = p\<lparr>issued := issued p @ cmds\<rparr>"
proof (cases "dispatch (Click cell) p")
  case (Inl err)
  then have "after_event p (Click cell) = p\<lparr>issued := issued p @ []\<rparr>"
    by (simp add: after_event_def)
  then show ?thesis by (metis le0 list.size(3))
next
  case (Inr p')
  then have "p' = p \<or> (\<exists>cmd. p' = issueCommand cmd p)"
    by (auto simp: onClick_def Let_def split: option.splits if_splits jsval.splits)
  then show ?thesis
  proof
    assume "p' = p"
    then have "after_event p (Click cell) = p\<lparr>issued := issued p @ []\<rparr>"
      using Inr by (simp add: after_event_def)
    then show ?thesis by (metis le0 list.size(3))
  next
    assume "\<exists>cmd. p' = issueCommand cmd p"
    then obtain cmd where "p' = issueCommand cmd p" ..
    then have "after_event p (Click cell) = p\<lparr>issued := issued p @ [cmd]\<rparr>"
      using Inr by (simp add: after_event_def issueCommand_def)
    moreover have "length [cmd] \<le> 1" by simp
    ultimately show ?thesis by blast
  qed
qed

lemma cell_change_issues_only:
  "\<exists>cmds. length cmds \<le> 1 \<and> after_event p (CellChange item) = p\<lparr>issued := issued p @ cmds\<rparr>"
proof (cases "editable p")
  case True
  then have "after_event p (CellChange item)
      = p\<lparr>issued := issued p @ [pathname p @ js ''.'' @ to_string (r_name item) @ js ''=''
                                   @ to_string (r_value item)]\<rparr>"
    by (simp add: after_event_def onCellChange_def issueCommand_def Let_def)
  moreover have "length [pathname p @ js ''.'' @ to_string (r_name item) @ js ''=''
                                   @ to_string (r_value item)] \<le> 1" by simp
  ultimately show ?thesis by blast
next
  case False
  then have "after_event p (CellChange item) = p\<lparr>issued := issued p @ []\<rparr>"
    by (simp add: after_event_def onCellChange_def)
  then show ?thesis by (metis le0 list.size(3))
qed

lemma rows_after_event: "\<not> is_load e \<Longrightarrow> parms_data (after_event p e) = parms_data p"
proof (cases e)
  case (CellChange item)
  then show ?thesis
    by (simp add: after_event_def onCellChange_def issueCommand_def Let_def)
next
  case (Click cell)
  then show ?thesis
    by (simp add: after_event_def onClick_def issueCommand_def Let_def
        split: option.splits jsval.splits)
next
  case AddButton
  then show ?thesis by (simp add: after_event_def)
next
  case (DialogOk t l h s a n)
  then show ?thesis
    by (simp add: after_event_def addParameter_def issueCommand_def Let_def)
next
  case ClrButton
  then show ?thesis by (simp add: after_event_def clearParameters_def issueCommand_def)
next
  case (LoadData properties)
  assume "\<not> is_load e"
  then show ?thesis using LoadData by simp
qed

lemma rows_run_events:
  "\<not> list_ex is_load es \<Longrightarrow> parms_data (run_events p es) = parms_data p"
  unfolding run_events_def
  by (induction es arbitrary: p) (simp_all add: rows_after_event)

text \<open>
  C10: a click on the grid and a committed cell edit leave the pane as it was but for
  at most one command issued; an event that changes the rows of the table is a
  \<^verbatim>\<open>loadData\<close>; a run of events without \<^verbatim>\<open>loadData\<close> leaves the rows as they
  were; after \<^verbatim>\<open>loadData\<close> with rows the table holds these rows.
\<close>

theorem rows_change_by_loadData_only:
  "(\<exists>cmds. length cmds \<le> 1 \<and> after_event p (Click cell) = p\<lparr>issued := issued p @ cmds\<rparr>) \<and>
   (\<exists>cmds. length cmds \<le> 1 \<and> after_event p (CellChange item) = p\<lparr>issued := issued p @ cmds\<rparr>) \<and>
   (parms_data (after_event p e) \<noteq> parms_data p \<longrightarrow> is_load e) \<and>
   (\<not> list_ex is_load es \<longrightarrow> parms_data (run_events p es) = parms_data p) \<and>
   parms_data (after_event p (LoadData (PRows rows))) = PRows rows"
  using click_issues_only [of p cell] cell_change_issues_only [of p item]
    rows_after_event [of e p] rows_run_events [of es p]
  by (auto simp: after_event_def loadData_def)

text \<open>
  C10 on a table of one row: a delete click, a cell edit, a clear and a confirmed add
  leave the row in place; \<^verbatim>\<open>loadData\<close> with no rows empties the table.
\<close>

theorem rows_change_by_loadData_only_witness:
  "parms_data (run_events (pane0\<lparr>parms_data := PRows [mk_row (JStr (js ''a.x'')) (JStr (js ''a.x''))]\<rparr>)
      [Click (Some \<lparr>c_row = 0, c_cell = 0\<rparr>), CellChange (mk_row (JStr (js ''a.x'')) (JStr (js ''a.x''))),
       ClrButton, DialogOk (js ''b.y'') (js ''0'') (js ''1'') [] [] []])
     = PRows [mk_row (JStr (js ''a.x'')) (JStr (js ''a.x''))] \<and>
   parms_data (after_event (pane0\<lparr>parms_data := PRows [mk_row (JStr (js ''a.x'')) (JStr (js ''a.x''))]\<rparr>)
      (LoadData (PRows []))) = PRows []"
  using rows_change_by_loadData_only
    [where p = "pane0\<lparr>parms_data := PRows [mk_row (JStr (js ''a.x'')) (JStr (js ''a.x''))]\<rparr>"
      and es = "[Click (Some \<lparr>c_row = 0, c_cell = 0\<rparr>),
                 CellChange (mk_row (JStr (js ''a.x'')) (JStr (js ''a.x''))), ClrButton,
                 DialogOk (js ''b.y'') (js ''0'') (js ''1'') [] [] []]"
      and e = "LoadData (PRows [])" and rows = "[]"]
  by simp

section \<open>The candidates of a scan\<close>

lemma split_last_segment:
  "c \<notin> set seg \<Longrightarrow> last (split c (pre @ c # seg)) = seg"
proof (induction pre)
  case Nil
  then show ?case by (simp add: split_no_sep)
next
  case (Cons x pre)
  have ne: "split c (pre @ c # seg) \<noteq> []" by (rule split_not_Nil)
  then obtain p ps where sp: "split c (pre @ c # seg) = p # ps" by (cases "split c (pre @ c # seg)") auto
  have "1 < length (split c (pre @ c # seg))" by (simp only: length_split_gt1) simp
  then have "ps \<noteq> []" using sp by auto
  then show ?case using Cons sp by (auto simp: Let_def)
qed

lemma candidates_input_step:
  "candidates (input_step cpath sc inp) = candidates sc @ [cpath @ js ''.'' @ to_string (i_name inp)]"
  by (simp add: input_step_def Let_def)

lemma candidates_inputs:
  "candidates (foldl (input_step cpath) sc ins)
     = candidates sc @ map (\<lambda>inp. cpath @ js ''.'' @ to_string (i_name inp)) ins"
  by (induction ins arbitrary: sc) (simp_all add: candidates_input_step)

lemma candidates_on_reply:
  "candidates (on_reply thr sc r) = candidates sc @ reply_names r"
  by (simp add: on_reply_def findInputs_def reply_names_def candidates_inputs split: option.splits)

lemma candidates_replies:
  "candidates (foldl (on_reply thr) sc rs) = candidates sc @ concat (map reply_names rs)"
  by (induction rs arbitrary: sc) (simp_all add: candidates_on_reply)

lemma length_reply_names: "length (reply_names r) = inputs_count r"
  by (simp add: reply_names_def inputs_count_def split: option.splits)

lemma limits_input_step:
  "limits (input_step cpath sc inp) (cpath @ js ''.'' @ to_string (i_name inp))
     = Some (bound (i_low inp), bound (i_high inp))"
  by (simp add: input_step_def Let_def bound_def truthy_falsy_values [symmetric])

lemma requests_input_step: "requests (input_step cpath sc inp) = requests sc"
  by (simp add: input_step_def Let_def)

lemma requests_inputs: "requests (foldl (input_step cpath) sc ins) = requests sc"
  by (induction ins arbitrary: sc) (simp_all add: requests_input_step)

lemma requests_on_reply: "requests (on_reply thr sc r) = requests sc"
  by (simp add: on_reply_def findInputs_def requests_inputs split: option.splits)

lemma dom_input_step:
  "dom (limits (input_step cpath sc inp))
     = insert (cpath @ js ''.'' @ to_string (i_name inp)) (dom (limits sc))"
  by (simp add: input_step_def Let_def)

lemma dom_inputs:
  "dom (limits sc) = set (candidates sc) \<Longrightarrow>
   dom (limits (foldl (input_step cpath) sc ins)) = set (candidates (foldl (input_step cpath) sc ins))"
proof (induction ins arbitrary: sc)
  case Nil
  then show ?case by simp
next
  case (Cons inp ins)
  have "dom (limits (input_step cpath sc inp)) = set (candidates (input_step cpath sc inp))"
    using Cons.prems by (simp add: dom_input_step candidates_input_step)
  then show ?case using Cons.IH by simp
qed

lemma dom_on_reply:
  "dom (limits sc) = set (candidates sc) \<Longrightarrow>
   dom (limits (on_reply thr sc r)) = set (candidates (on_reply thr sc r))"
  by (simp add: on_reply_def findInputs_def dom_inputs split: option.splits)

lemma dom_replies:
  "dom (limits sc) = set (candidates sc) \<Longrightarrow>
   dom (limits (foldl (on_reply thr) sc rs)) = set (candidates (foldl (on_reply thr) sc rs))"
proof (induction rs arbitrary: sc)
  case Nil
  then show ?case by simp
next
  case (Cons r rs)
  show ?case using Cons.IH [OF dom_on_reply [OF Cons.prems]] by simp
qed

lemma limits_input_step_upd:
  "limits (input_step cpath sc inp)
     = (limits sc)(cpath @ js ''.'' @ to_string (i_name inp)
                   \<mapsto> (bound (i_low inp), bound (i_high inp)))"
  by (simp add: input_step_def Let_def bound_def truthy_falsy_values [symmetric])

lemma limits_inputs:
  "limits (foldl (input_step cpath) sc ins)
     = limits sc ++ map_of (rev (map (\<lambda>inp. (cpath @ js ''.'' @ to_string (i_name inp),
                                             bound (i_low inp), bound (i_high inp))) ins))"
proof (induction ins arbitrary: sc)
  case Nil
  then show ?case by simp
next
  case (Cons inp ins)
  show ?case
    unfolding foldl_Cons Cons.IH limits_input_step_upd
    by (simp add: map_add_upd_left)
qed

lemma limits_on_reply:
  "limits (on_reply thr sc r) = limits sc ++ map_of (rev (reply_bounds r))"
  by (simp add: on_reply_def findInputs_def reply_bounds_def limits_inputs split: option.splits)

lemma limits_replies:
  "limits (foldl (on_reply thr) sc rs)
     = limits sc ++ map_of (rev (concat (map reply_bounds rs)))"
proof (induction rs arbitrary: sc)
  case Nil
  then show ?case by simp
next
  case (Cons r rs)
  show ?case
    unfolding foldl_Cons Cons.IH limits_on_reply
    by (simp add: map_add_assoc)
qed

lemma fst_reply_bounds: "map fst (reply_bounds r) = reply_names r"
  by (simp add: reply_bounds_def reply_names_def comp_def split: option.splits)

lemma keys_reply_bounds:
  "map fst (concat (map reply_bounds rs)) = concat (map reply_names rs)"
  by (induction rs) (simp_all add: fst_reply_bounds)

lemma entry_reply_bounds:
  "Inputs (snd r) = Some ins \<Longrightarrow> inp \<in> set ins \<Longrightarrow>
   (comppath (fst r) @ js ''.'' @ to_string (i_name inp), bound (i_low inp), bound (i_high inp))
     \<in> set (reply_bounds r)"
  by (auto simp: reply_bounds_def)

lemma scan_bounds_distinct:
  assumes d: "distinct (concat (map reply_names rs))"
    and r: "r \<in> set rs" and i: "Inputs (snd r) = Some ins" and inp: "inp \<in> set ins"
  shows "limits (foldl (on_reply thr) (findComps w) rs)
           (comppath (fst r) @ js ''.'' @ to_string (i_name inp))
         = Some (bound (i_low inp), bound (i_high inp))"
proof -
  let ?es = "concat (map reply_bounds rs)"
  have "distinct (map fst (rev ?es))"
    using d by (simp add: rev_map [symmetric] keys_reply_bounds)
  moreover have "(comppath (fst r) @ js ''.'' @ to_string (i_name inp),
                  bound (i_low inp), bound (i_high inp)) \<in> set (rev ?es)"
    using entry_reply_bounds [OF i inp] r by auto
  ultimately have "map_of (rev ?es) (comppath (fst r) @ js ''.'' @ to_string (i_name inp))
      = Some (bound (i_low inp), bound (i_high inp))"
    by (rule map_of_is_SomeI)
  then show ?thesis by (simp add: limits_replies findComps_def)
qed

lemma scan_bounds_last:
  "limits (on_reply thr sc (path, \<lparr>Inputs = Some (ins @ [inp])\<rparr>))
     (comppath path @ js ''.'' @ to_string (i_name inp))
   = Some (bound (i_low inp), bound (i_high inp))"
  by (simp add: limits_on_reply reply_bounds_def)

text \<open>
  C6: after any replies to a run of \<^verbatim>\<open>findComps\<close> its candidates are, reply by
  reply and input by input, the names \<open>shortName.inputName\<close>, one for each input, and
  its bounds map is the map of the entries of these replies, a later entry of the same
  name replacing an earlier one, so that its keys are exactly the candidates. A reply
  without \<^verbatim>\<open>Inputs\<close> changes nothing; the short name is the last segment of the
  component's path. When the names are distinct the scan holds for every input of every
  reply the pair of its bounds, null for a falsy or absent one, hence the pair of nulls
  when neither is present; in any case it holds this pair for the last input of a reply
  once the reply has been processed.
\<close>

theorem candidate_scan:
  "candidates (foldl (on_reply each_throws) (findComps w) rs) = concat (map reply_names rs) \<and>
   length (candidates (foldl (on_reply each_throws) (findComps w) rs)) = sum_list (map inputs_count rs) \<and>
   limits (foldl (on_reply each_throws) (findComps w) rs)
     = map_of (rev (concat (map reply_bounds rs))) \<and>
   dom (limits (foldl (on_reply each_throws) (findComps w) rs))
     = set (candidates (foldl (on_reply each_throws) (findComps w) rs)) \<and>
   (Inputs cj = None \<longrightarrow> on_reply each_throws sc (path, cj) = sc) \<and>
   (46 \<notin> set seg \<longrightarrow> comppath seg = seg \<and> comppath (pre @ js ''.'' @ seg) = seg) \<and>
   (distinct (concat (map reply_names rs)) \<and> r \<in> set rs \<and> Inputs (snd r) = Some ins \<and>
    inp \<in> set ins \<longrightarrow>
      limits (foldl (on_reply each_throws) (findComps w) rs)
        (comppath (fst r) @ js ''.'' @ to_string (i_name inp))
      = Some (bound (i_low inp), bound (i_high inp))) \<and>
   (distinct (concat (map reply_names rs)) \<and> r \<in> set rs \<and> Inputs (snd r) = Some ins \<and>
    inp \<in> set ins \<and> i_low inp \<in> falsy_values \<and> i_high inp \<in> falsy_values \<longrightarrow>
      limits (foldl (on_reply each_throws) (findComps w) rs)
        (comppath (fst r) @ js ''.'' @ to_string (i_name inp))
      = Some (JNull, JNull)) \<and>
   limits (on_reply each_throws sc (path, \<lparr>Inputs = Some (ins' @ [inp'])\<rparr>))
     (comppath path @ js ''.'' @ to_string (i_name inp'))
     = Some (bound (i_low inp'), bound (i_high inp')) \<and>
   (i_low inp' \<in> falsy_values \<and> i_high inp' \<in> falsy_values \<longrightarrow>
      limits (on_reply each_throws sc (path, \<lparr>Inputs = Some (ins' @ [inp'])\<rparr>))
        (comppath path @ js ''.'' @ to_string (i_name inp'))
      = Some (JNull, JNull)) \<and>
   candidates (input_step cpath sc inp) = candidates sc @ [cpath @ js ''.'' @ to_string (i_name inp)] \<and>
   limits (input_step cpath sc inp) (cpath @ js ''.'' @ to_string (i_name inp))
     = Some (bound (i_low inp), bound (i_high inp)) \<and>
   (i_low inp \<in> falsy_values \<and> i_high inp \<in> falsy_values \<longrightarrow>
      limits (input_step cpath sc inp) (cpath @ js ''.'' @ to_string (i_name inp)) = Some (JNull, JNull))"
proof -
  let ?fin = "foldl (on_reply each_throws) (findComps w) rs"
  have c: "candidates ?fin = concat (map reply_names rs)"
    by (simp add: candidates_replies findComps_def)
  have l: "length (candidates ?fin) = sum_list (map inputs_count rs)"
    unfolding c by (simp add: length_concat comp_def length_reply_names)
  have m: "limits ?fin = map_of (rev (concat (map reply_bounds rs)))"
    by (simp add: limits_replies findComps_def)
  have d: "dom (limits ?fin) = set (candidates ?fin)"
    by (rule dom_replies) (simp add: findComps_def)
  have n: "Inputs cj = None \<longrightarrow> on_reply each_throws sc (path, cj) = sc"
    by (simp add: on_reply_def findInputs_def)
  have s: "46 \<notin> set seg \<longrightarrow> comppath seg = seg \<and> comppath (pre @ js ''.'' @ seg) = seg"
    using split_last_segment [of "46" seg pre]
    by (simp add: comppath_def split_no_sep js_def)
  have g: "distinct (concat (map reply_names rs)) \<and> r \<in> set rs \<and> Inputs (snd r) = Some ins \<and>
    inp \<in> set ins \<longrightarrow>
      limits ?fin (comppath (fst r) @ js ''.'' @ to_string (i_name inp))
      = Some (bound (i_low inp), bound (i_high inp))"
    using scan_bounds_distinct [of rs r ins inp each_throws w] by blast
  have g0: "distinct (concat (map reply_names rs)) \<and> r \<in> set rs \<and> Inputs (snd r) = Some ins \<and>
    inp \<in> set ins \<and> i_low inp \<in> falsy_values \<and> i_high inp \<in> falsy_values \<longrightarrow>
      limits ?fin (comppath (fst r) @ js ''.'' @ to_string (i_name inp)) = Some (JNull, JNull)"
    using g by (simp add: bound_def)
  have e: "limits (on_reply each_throws sc (path, \<lparr>Inputs = Some (ins' @ [inp'])\<rparr>))
     (comppath path @ js ''.'' @ to_string (i_name inp'))
     = Some (bound (i_low inp'), bound (i_high inp'))"
    by (rule scan_bounds_last)
  have e0: "i_low inp' \<in> falsy_values \<and> i_high inp' \<in> falsy_values \<longrightarrow>
      limits (on_reply each_throws sc (path, \<lparr>Inputs = Some (ins' @ [inp'])\<rparr>))
        (comppath path @ js ''.'' @ to_string (i_name inp'))
      = Some (JNull, JNull)"
    using e by (simp add: bound_def)
  have b: "i_low inp \<in> falsy_values \<and> i_high inp \<in> falsy_values \<longrightarrow>
      limits (input_step cpath sc inp) (cpath @ js ''.'' @ to_string (i_name inp)) = Some (JNull, JNull)"
    using limits_input_step [of cpath sc inp] by (simp add: bound_def)
  show ?thesis
    using c l m d n s g g0 e e0 b
      candidates_input_step [of cpath sc inp] limits_input_step [of cpath sc inp]
    by (simp only: simp_thms)
qed

text \<open>
  C6 on a workflow of two components, \<open>top.c2\<close> without inputs and \<open>top.c1\<close> with the
  inputs \<open>x\<close> (no low, high 0) and \<open>y\<close> (low 1, high 5): after both replies the scan
  holds the pair of nulls for \<open>c1.x\<close> and the pair 1, 5 for \<open>c1.y\<close>.
\<close>

theorem candidate_scan_witness:
  "candidates (foldl (on_reply True) (findComps [js ''top.c1'', js ''top.c2''])
      [(js ''top.c2'', \<lparr>Inputs = None\<rparr>),
       (js ''top.c1'', \<lparr>Inputs = Some [mk_input (js ''x'') JUndefined (JNum 0),
                                       mk_input (js ''y'') (JNum 1) (JNum 5)]\<rparr>)])
     = [js ''c1.x'', js ''c1.y''] \<and>
   limits (foldl (on_reply True) (findComps [js ''top.c1'', js ''top.c2''])
      [(js ''top.c2'', \<lparr>Inputs = None\<rparr>),
       (js ''top.c1'', \<lparr>Inputs = Some [mk_input (js ''x'') JUndefined (JNum 0),
                                       mk_input (js ''y'') (JNum 1) (JNum 5)]\<rparr>)]) (js ''c1.x'')
     = Some (JNull, JNull) \<and>
   limits (on_reply True scan0
      (js ''top.c1'', \<lparr>Inputs = Some [mk_input (js ''x'') JUndefined (JNum 0),
                                      mk_input (js ''y'') (JNum 1) (JNum 5)]\<rparr>)) (js ''c1.y'')
     = Some (JNum 1, JNum 5) \<and>
   on_reply True scan0 (js ''top.c2'', \<lparr>Inputs = None\<rparr>) = scan0 \<and>
   comppath (js ''top.c1'') = js ''c1'' \<and>
   limits (input_step (js ''c1'') scan0 (mk_input (js ''x'') JUndefined (JNum 0))) (js ''c1.x'')
     = Some (JNull, JNull)"
  using candidate_scan [where each_throws = True and w = "[js ''top.c1'', js ''top.c2'']"
      and rs = "[(js ''top.c2'', \<lparr>Inputs = None\<rparr>),
                 (js ''top.c1'', \<lparr>Inputs = Some [mk_input (js ''x'') JUndefined (JNum 0),
                                                 mk_input (js ''y'') (JNum 1) (JNum 5)]\<rparr>)]"
      and r = "(js ''top.c1'', \<lparr>Inputs = Some [mk_input (js ''x'') JUndefined (JNum 0),
                                                 mk_input (js ''y'') (JNum 1) (JNum 5)]\<rparr>)"
      and ins = "[mk_input (js ''x'') JUndefined (JNum 0), mk_input (js ''y'') (JNum 1) (JNum 5)]"
      and cj = "\<lparr>Inputs = None\<rparr>" and sc = scan0 and path = "js ''top.c1''"
      and ins' = "[mk_input (js ''x'') JUndefined (JNum 0)]"
      and inp' = "mk_input (js ''y'') (JNum 1) (JNum 5)"
      and seg = "js ''c1''" and pre = "js ''top''" and cpath = "js ''c1''"
      and inp = "mk_input (js ''x'') JUndefined (JNum 0)"]
  by (simp add: reply_names_def reply_bounds_def mk_input_def falsy_values_def comppath_def
      bound_def scan0_def on_reply_def findInputs_def input_step_def findComps_def Let_def js_def)

lemma scan_step_nth:
  "k < length (runs st) \<Longrightarrow> requests (runs st ! k) = w \<Longrightarrow>
   runs (foldl (scan_step thr) st es) ! k = foldl (on_reply thr) (runs st ! k) (replies_of k w es)"
proof (induction es arbitrary: st)
  case Nil
  then show ?case by simp
next
  case (Cons e es)
  let ?st' = "scan_step thr st e"
  have run: "foldl (scan_step thr) st (e # es) = foldl (scan_step thr) ?st' es"
    by (rule foldl_Cons)
  show ?case
  proof (cases e)
    case (Workflow w')
    have here: "runs ?st' ! k = runs st ! k" and len: "k < length (runs ?st')"
      using Workflow Cons.prems by (simp_all add: nth_append)
    have "runs (foldl (scan_step thr) ?st' es) ! k
        = foldl (on_reply thr) (runs ?st' ! k) (replies_of k w es)"
      using len Cons.prems here by (intro Cons.IH) simp_all
    then show ?thesis unfolding run here using Workflow by simp
  next
    case (Component j path cj)
    have len: "k < length (runs ?st')" using Component Cons.prems by simp
    have here: "runs ?st' ! k
        = (if j = k \<and> path \<in> set w then on_reply thr (runs st ! k) (path, cj) else runs st ! k)"
      using Component Cons.prems by (auto simp: nth_list_update)
    have req: "requests (runs ?st' ! k) = w"
      unfolding here using Cons.prems by (simp add: requests_on_reply)
    have "runs (foldl (scan_step thr) ?st' es) ! k
        = foldl (on_reply thr) (runs ?st' ! k) (replies_of k w es)"
      using len req by (rule Cons.IH)
    then show ?thesis unfolding run here using Component by simp
  qed
qed

lemma outer_scan_step:
  "outer_candidates (scan_step thr st e) = outer_candidates st \<and>
   outer_limits (scan_step thr st e) = outer_limits st"
  by (cases e) simp_all

lemma outer_scan_steps:
  "outer_candidates (foldl (scan_step thr) st es) = outer_candidates st \<and>
   outer_limits (foldl (scan_step thr) st es) = outer_limits st"
  by (induction es arbitrary: st) (simp_all add: outer_scan_step)

text \<open>
  C9: a run of \<^verbatim>\<open>findComps\<close> starts with an empty candidate list and an empty
  bounds map, whatever earlier runs have gathered; after any later events its arrays are
  what the replies to its own requests make of the empty ones, so its dialog offers the
  names of these replies and no other; the pane's own arrays of the same names are
  never written.
\<close>

theorem scan_fresh:
  "candidates (findComps w) = [] \<and> limits (findComps w) = Map.empty \<and>
   runs (foldl (scan_step each_throws) st (Workflow w # es)) ! length (runs st)
     = foldl (on_reply each_throws) (findComps w) (replies_of (length (runs st)) w es) \<and>
   offered (foldl (scan_step each_throws) st (Workflow w # es)) (length (runs st))
     = concat (map reply_names (replies_of (length (runs st)) w es)) \<and>
   outer_candidates (foldl (scan_step each_throws) st es) = outer_candidates st \<and>
   outer_limits (foldl (scan_step each_throws) st es) = outer_limits st"
proof -
  let ?st' = "scan_step each_throws st (Workflow w)"
  have "runs (foldl (scan_step each_throws) ?st' es) ! length (runs st)
        = foldl (on_reply each_throws) (runs ?st' ! length (runs st))
            (replies_of (length (runs st)) w es)"
    by (rule scan_step_nth) (simp_all add: findComps_def)
  then have run: "runs (foldl (scan_step each_throws) st (Workflow w # es)) ! length (runs st)
     = foldl (on_reply each_throws) (findComps w) (replies_of (length (runs st)) w es)"
    by simp
  have fresh: "candidates (findComps w) = [] \<and> limits (findComps w) = Map.empty"
    by (simp add: findComps_def)
  show ?thesis unfolding offered_def run
    using fresh outer_scan_steps [of each_throws st es] by (simp add: candidates_replies)
qed

text \<open>
  C9 after an earlier run that holds \<open>c0.z\<close>: a late reply to the earlier run and a
  reply to the new one arrive; the new dialog offers \<open>c1.x\<close> only.
\<close>

theorem scan_fresh_witness:
  "offered (foldl (scan_step True) (new_prompts\<lparr>runs := [scan0]\<rparr>)
      [Workflow [js ''top.c1''],
       Component 0 (js ''top.c1'') \<lparr>Inputs = Some [mk_input (js ''old'') JNull JNull]\<rparr>,
       Component 1 (js ''top.c1'') \<lparr>Inputs = Some [mk_input (js ''x'') JNull JNull]\<rparr>]) 1
     = [js ''c1.x'']"
  using scan_fresh [where each_throws = True and st = "new_prompts\<lparr>runs := [scan0]\<rparr>"
      and w = "[js ''top.c1'']"
      and es = "[Component 0 (js ''top.c1'') \<lparr>Inputs = Some [mk_input (js ''old'') JNull JNull]\<rparr>,
                 Component 1 (js ''top.c1'') \<lparr>Inputs = Some [mk_input (js ''x'') JNull JNull]\<rparr>]"]
  by (simp add: reply_names_def mk_input_def comppath_def scan0_def findComps_def on_reply_def
      findInputs_def input_step_def new_prompts_def offered_def js_def)

section \<open>The lifetime of a dialog\<close>

lemma closed_dialog_stays: "d_state d \<noteq> Open \<Longrightarrow> foldl dialog_step d evs = d"
  by (induction evs) (simp_all add: dialog_step_def)

lemma open_dialog_calls:
  "d_state d = Open \<Longrightarrow>
   length (d_calls (foldl dialog_step d evs))
     = length (d_calls d) + (if closed_by evs = Some ClickOk then 1 else 0)"
proof (induction evs arbitrary: d)
  case Nil
  then show ?case by simp
next
  case (Cons ev evs)
  have run: "foldl dialog_step d (ev # evs) = foldl dialog_step (dialog_step d ev) evs"
    by (rule foldl_Cons)
  show ?case
  proof (cases ev)
    case (Type f s)
    have st: "dialog_step d ev = d\<lparr>d_val := (d_val d)(f := s)\<rparr>"
      using Type Cons.prems by (simp add: dialog_step_def)
    have "d_state (d\<lparr>d_val := (d_val d)(f := s)\<rparr>) = Open" using Cons.prems by simp
    from Cons.IH [OF this] show ?thesis unfolding run st using Type by simp
  next
    case ClickOk
    have st: "dialog_step d ev = ok_click d"
      using ClickOk Cons.prems by (simp add: dialog_step_def)
    have "d_state (ok_click d) \<noteq> Open" by (simp add: ok_click_def Let_def)
    then have "foldl dialog_step (ok_click d) evs = ok_click d" by (rule closed_dialog_stays)
    then show ?thesis unfolding run st using ClickOk by (simp add: ok_click_def Let_def)
  next
    case ClickCancel
    have st: "dialog_step d ev = cancel_click d"
      using ClickCancel Cons.prems by (simp add: dialog_step_def)
    have "d_state (cancel_click d) \<noteq> Open" by (simp add: cancel_click_def Let_def)
    then have "foldl dialog_step (cancel_click d) evs = cancel_click d"
      by (rule closed_dialog_stays)
    then show ?thesis unfolding run st using ClickCancel by (simp add: cancel_click_def Let_def)
  next
    case WidgetClose
    have st: "dialog_step d ev = d\<lparr>d_state := Hidden\<rparr>"
      using WidgetClose Cons.prems by (simp add: dialog_step_def)
    have "d_state (d\<lparr>d_state := Hidden\<rparr>) \<noteq> Open" by simp
    then have "foldl dialog_step (d\<lparr>d_state := Hidden\<rparr>) evs = d\<lparr>d_state := Hidden\<rparr>"
      by (rule closed_dialog_stays)
    then show ?thesis unfolding run st using WidgetClose by simp
  qed
qed

text \<open>
  C8: over any sequence of events of one dialog the callback is called at most once; it
  is called once exactly when the event that closes the dialog is the click on Ok; when
  that event is the click on Cancel it is never called.
\<close>

theorem callback_once:
  "length (d_calls (lifetime evs)) \<le> 1 \<and>
   (length (d_calls (lifetime evs)) = 1) = (closed_by evs = Some ClickOk) \<and>
   (closed_by evs = Some ClickCancel \<longrightarrow> d_calls (lifetime evs) = [])"
  using open_dialog_calls [of new_dialog evs]
  by (auto simp: lifetime_def new_dialog_def)

text \<open>
  C8 on two lifetimes: Cancel first, then a click on Ok that finds no dialog; Ok first,
  then further clicks.
\<close>

theorem callback_once_witness:
  "d_calls (lifetime [Type Target (js ''a.x''), Type Low (js ''0''), ClickCancel, ClickOk]) = [] \<and>
   length (d_calls (lifetime [Type Target (js ''a.x''), ClickOk, ClickOk, ClickCancel])) = 1"
  using callback_once [of "[Type Target (js ''a.x''), Type Low (js ''0''), ClickCancel, ClickOk]"]
    callback_once [of "[Type Target (js ''a.x''), ClickOk, ClickOk, ClickCancel]"]
  by simp

end
